theory Spec2Isabelle
  imports Main
begin

section \<open>Data model (App.tsx, lines 23-44)\<close>

text \<open>
  \<^verbatim>\<open>const STATUSES = ["Not Started", "In Progress", "Done"] as const;\<close>
\<close>

datatype status = NotStarted | InProgress | Done

text \<open>
  \<^verbatim>\<open>type Task = { id; title; category; assignee; status; details?; sla?;
                reminderLeadMinutes?; reminderSent?; createdAt; updatedAt }\<close>
  An optional field is an \<open>option\<close>: \<open>None\<close> is \<open>undefined\<close>. The field \<open>id\<close> is
  called \<open>task_id\<close>, since \<open>id\<close> is the identity function of HOL. The lead is a whole
  number of minutes.
\<close>

record task =
  task_id :: string
  title :: string
  category :: string
  assignee :: string
  status :: status
  details :: "string option"
  sla :: "string option"
  reminderLeadMinutes :: "int option"
  reminderSent :: "bool option"
  createdAt :: string
  updatedAt :: string

record settings =
  kickoffISO :: "string option"

section \<open>Numbers of the host language\<close>

text \<open>
  \<^verbatim>\<open>new Date(iso).getTime()\<close> is a whole number of milliseconds, or \<open>NaN\<close> when the
  string is no date; it never throws. \<^verbatim>\<open>Date.now()\<close> is a whole number. The operators
  below are the ones the code applies to such values: every comparison with \<open>NaN\<close> is
  false, and arithmetic and \<^verbatim>\<open>Math.max\<close> propagate \<open>NaN\<close>. Timestamps are taken in the
  range where the arithmetic of doubles on them is exact.
\<close>

datatype jsnum = Num int | NaN

fun js_sub :: "jsnum \<Rightarrow> jsnum \<Rightarrow> jsnum" where
  "js_sub (Num a) (Num b) = Num (a - b)"
| "js_sub _ _ = NaN"

fun js_gt :: "jsnum \<Rightarrow> jsnum \<Rightarrow> bool" where
  "js_gt (Num a) (Num b) = (a > b)"
| "js_gt _ _ = False"

fun js_ge :: "jsnum \<Rightarrow> jsnum \<Rightarrow> bool" where
  "js_ge (Num a) (Num b) = (a \<ge> b)"
| "js_ge _ _ = False"

fun js_le :: "jsnum \<Rightarrow> jsnum \<Rightarrow> bool" where
  "js_le (Num a) (Num b) = (a \<le> b)"
| "js_le _ _ = False"

fun js_max :: "jsnum \<Rightarrow> jsnum \<Rightarrow> jsnum" where
  "js_max (Num a) (Num b) = Num (max a b)"
| "js_max _ _ = NaN"

text \<open>\<^verbatim>\<open>Math.floor(x / k)\<close> for a positive whole \<open>k\<close>.\<close>

fun js_floor_div :: "jsnum \<Rightarrow> int \<Rightarrow> jsnum" where
  "js_floor_div (Num a) k = Num (a div k)"
| "js_floor_div NaN k = NaN"

text \<open>
  Truthiness of an optional string (\<^verbatim>\<open>!t.sla\<close>): \<open>undefined\<close> and the empty string are
  falsy. Truthiness of an optional boolean (\<^verbatim>\<open>!t.reminderSent\<close>).
\<close>

fun truthy_str :: "string option \<Rightarrow> bool" where
  "truthy_str None = False"
| "truthy_str (Some s) = (s \<noteq> [])"

fun truthy_bool :: "bool option \<Rightarrow> bool" where
  "truthy_bool None = False"
| "truthy_bool (Some b) = b"

section \<open>Due-state classifier (App.tsx, line 250)\<close>

record due_state =
  overdue :: bool
  dueSoon :: bool
  soonMins :: jsnum

text \<open>
  \<^verbatim>\<open>function dueState(t: Task) {
    if (!t.sla) return { overdue: false, dueSoon: false, soonMins: 0 };
    const due = new Date(t.sla).getTime(); const now = Date.now();
    const overdue = now > due && t.status !== "Done";
    const delta = Math.max(0, due - now);
    const soonMins = Math.floor(delta / 60000);
    return { overdue, dueSoon: !overdue && soonMins <= 240, soonMins }; }\<close>
  The date parser \<open>getTime\<close> and the clock reading \<open>now\<close> are parameters.
\<close>

definition dueState :: "(string \<Rightarrow> jsnum) \<Rightarrow> int \<Rightarrow> task \<Rightarrow> due_state" where
  "dueState getTime now t =
     (case sla t of
        None \<Rightarrow> \<lparr>overdue = False, dueSoon = False, soonMins = Num 0\<rparr>
      | Some s \<Rightarrow>
          if s = [] then \<lparr>overdue = False, dueSoon = False, soonMins = Num 0\<rparr>
          else
            let due = getTime s;
                od = (js_gt (Num now) due \<and> status t \<noteq> Done);
                delta = js_max (Num 0) (js_sub due (Num now));
                sm = js_floor_div delta 60000
            in \<lparr>overdue = od, dueSoon = (\<not> od \<and> js_le sm (Num 240)), soonMins = sm\<rparr>)"

text \<open>
  The classifier as the specification words it: no deadline gives the fixed answer;
  otherwise \<open>overdue = now > deadline AND status != Done\<close>,
  \<open>minutesRemaining = max(0, floor((deadline - now) / 60000))\<close> and
  \<open>dueSoon = NOT overdue AND minutesRemaining <= 240\<close>. A task has a deadline when its
  \<open>sla\<close> field holds a non-empty string.
\<close>

definition has_deadline :: "task \<Rightarrow> bool" where
  "has_deadline t = truthy_str (sla t)"

definition classify :: "(string \<Rightarrow> jsnum) \<Rightarrow> int \<Rightarrow> task \<Rightarrow> due_state" where
  "classify getTime now t =
     (if \<not> has_deadline t then \<lparr>overdue = False, dueSoon = False, soonMins = Num 0\<rparr>
      else
        let deadline = getTime (the (sla t));
            od = (js_gt (Num now) deadline \<and> status t \<noteq> Done);
            minutesRemaining = js_max (Num 0) (js_floor_div (js_sub deadline (Num now)) 60000)
        in \<lparr>overdue = od, dueSoon = (\<not> od \<and> js_le minutesRemaining (Num 240)),
            soonMins = minutesRemaining\<rparr>)"


section \<open>Field edits of the task table (App.tsx, lines 216-222) and updateTask (line 385)\<close>

text \<open>
  Each input of a table row builds the next task with a spread of the old one and calls
  \<^verbatim>\<open>onUpdate\<close>, which is \<^verbatim>\<open>updateTask\<close>:
  \<^verbatim>\<open>onUpdate({ ...t, title: e.target.value, updatedAt: new Date().toISOString() })\<close>
  \<^verbatim>\<open>onUpdate({ ...t, category: e.target.value, updatedAt: ... })\<close>
  \<^verbatim>\<open>onUpdate({ ...t, assignee: e.target.value, updatedAt: ... })\<close>
  \<^verbatim>\<open>onUpdate({ ...t, status: e.target.value, updatedAt: ... })\<close>
  \<^verbatim>\<open>onUpdate({ ...t, sla: e.target.value ? new Date(e.target.value).toISOString() : undefined,
              updatedAt: ..., reminderSent:false })\<close>
  \<^verbatim>\<open>onUpdate({ ...t, reminderLeadMinutes: e.target.value === "" ? undefined
              : Number(e.target.value), updatedAt: ..., reminderSent:false })\<close>
  The argument of an edit is the value of the input. \<^verbatim>\<open>toISOString\<close> throws a RangeError
  on an invalid date: the conversion \<open>toISO\<close> is a parameter whose \<open>None\<close> is that
  exception, and then \<^verbatim>\<open>onUpdate\<close> is never called. \<open>toNumber\<close> is \<^verbatim>\<open>Number\<close> on the value
  of a number input, and \<open>stamp\<close> is the time stamp \<^verbatim>\<open>new Date().toISOString()\<close>.
\<close>

datatype edit =
    EditTitle string
  | EditCategory string
  | EditAssignee string
  | EditStatus status
  | EditSla string
  | EditLead string

fun apply_edit :: "(string \<Rightarrow> string option) \<Rightarrow> (string \<Rightarrow> int) \<Rightarrow> string \<Rightarrow> edit \<Rightarrow> task \<Rightarrow> task option" where
  "apply_edit toISO toNumber stamp (EditTitle v) t = Some (t\<lparr>title := v, updatedAt := stamp\<rparr>)"
| "apply_edit toISO toNumber stamp (EditCategory v) t = Some (t\<lparr>category := v, updatedAt := stamp\<rparr>)"
| "apply_edit toISO toNumber stamp (EditAssignee v) t = Some (t\<lparr>assignee := v, updatedAt := stamp\<rparr>)"
| "apply_edit toISO toNumber stamp (EditStatus v) t = Some (t\<lparr>status := v, updatedAt := stamp\<rparr>)"
| "apply_edit toISO toNumber stamp (EditSla v) t =
     (if v \<noteq> [] then
        (case toISO v of
           None \<Rightarrow> None
         | Some d \<Rightarrow> Some (t\<lparr>sla := Some d, updatedAt := stamp, reminderSent := Some False\<rparr>))
      else Some (t\<lparr>sla := None, updatedAt := stamp, reminderSent := Some False\<rparr>))"
| "apply_edit toISO toNumber stamp (EditLead v) t =
     Some (t\<lparr>reminderLeadMinutes := (if v = [] then None else Some (toNumber v)),
             updatedAt := stamp, reminderSent := Some False\<rparr>)"

text \<open>
  \<^verbatim>\<open>const updateTask = async (next: Task) => {
     setTasks(prev => prev.map(t=> t.id===next.id? next : t)); ... }\<close>
  The state update of \<^verbatim>\<open>updateTask\<close>; its remote write is in the section on remote writes.
\<close>

definition updateTask :: "task \<Rightarrow> task list \<Rightarrow> task list" where
  "updateTask next prev = map (\<lambda>t. if task_id t = task_id next then next else t) prev"

text \<open>An edit of the row of \<open>t\<close>: the list is left alone when the handler throws.\<close>

definition edit_row :: "(string \<Rightarrow> string option) \<Rightarrow> (string \<Rightarrow> int) \<Rightarrow> string \<Rightarrow> edit \<Rightarrow> task \<Rightarrow> task list \<Rightarrow> task list" where
  "edit_row toISO toNumber stamp e t prev =
     (case apply_edit toISO toNumber stamp e t of
        None \<Rightarrow> prev
      | Some next \<Rightarrow> updateTask next prev)"

section \<open>Remote rows and live change events (App.tsx, lines 347 and 378)\<close>

text \<open>
  A row of the remote \<open>tasks\<close> relation: every column but the key may be null.
\<close>

record db_row =
  r_id :: string
  r_title :: "string option"
  r_category :: "string option"
  r_assignee :: "string option"
  r_status :: "status option"
  r_details :: "string option"
  r_sla :: "string option"
  r_reminder_lead_minutes :: "int option"
  r_reminder_sent :: "bool option"
  r_created_at :: "string option"
  r_updated_at :: "string option"

text \<open>\<^verbatim>\<open>a ?? b\<close>\<close>

fun nullish :: "'a option \<Rightarrow> 'a \<Rightarrow> 'a" where
  "nullish None d = d"
| "nullish (Some v) d = v"

text \<open>
  \<^verbatim>\<open>function dbToTask(r: any): Task { return { id: r.id, title: r.title ?? "",
     category: r.category ?? "", assignee: (r.assignee ?? PEOPLE[0]), status: (r.status ?? 'Not Started'),
     details: r.details ?? undefined, sla: r.sla ?? undefined,
     reminderLeadMinutes: r.reminder_lead_minutes ?? undefined, reminderSent: r.reminder_sent ?? false,
     createdAt: r.created_at ?? new Date().toISOString(), updatedAt: r.updated_at ?? new Date().toISOString() }; }\<close>
  \<^verbatim>\<open>PEOPLE[0]\<close> is \<^verbatim>\<open>"Buzza"\<close>.
\<close>

definition dbToTask :: "string \<Rightarrow> db_row \<Rightarrow> task" where
  "dbToTask stamp r =
     \<lparr>task_id = r_id r, title = nullish (r_title r) [], category = nullish (r_category r) [],
      assignee = nullish (r_assignee r) ''Buzza'', status = nullish (r_status r) NotStarted,
      details = r_details r, sla = r_sla r, reminderLeadMinutes = r_reminder_lead_minutes r,
      reminderSent = Some (nullish (r_reminder_sent r) False),
      createdAt = nullish (r_created_at r) stamp, updatedAt = nullish (r_updated_at r) stamp\<rparr>"

text \<open>
  A change event carries \<^verbatim>\<open>payload.new\<close> or \<^verbatim>\<open>payload.old\<close>, which the handler tests for
  truthiness: \<open>None\<close> is a payload without the row.
\<close>

datatype change_event = INSERT "db_row option" | UPDATE "db_row option" | DELETE "db_row option"

text \<open>
  \<^verbatim>\<open>if (payload.eventType === 'INSERT' && payload.new) { setTasks(prev => {
       const exists = prev.some(x => x.id === payload.new.id);
       return exists ? prev : [dbToTask(payload.new), ...prev]; }); }
   else if (payload.eventType === 'UPDATE' && payload.new) {
       setTasks(prev => prev.map(t => t.id === payload.new.id ? dbToTask(payload.new) : t)); }
   else if (payload.eventType === 'DELETE' && payload.old) {
       setTasks(prev => prev.filter(t => t.id !== payload.old.id)); }\<close>
\<close>

fun exists_id :: "string \<Rightarrow> task list \<Rightarrow> bool" where
  "exists_id i [] = False"
| "exists_id i (x # xs) = (task_id x = i \<or> exists_id i xs)"

fun apply_event :: "string \<Rightarrow> change_event \<Rightarrow> task list \<Rightarrow> task list" where
  "apply_event stamp (INSERT (Some new)) prev =
     (if exists_id (r_id new) prev then prev else dbToTask stamp new # prev)"
| "apply_event stamp (UPDATE (Some new)) prev =
     map (\<lambda>t. if task_id t = r_id new then dbToTask stamp new else t) prev"
| "apply_event stamp (DELETE (Some old)) prev =
     filter (\<lambda>t. task_id t \<noteq> r_id old) prev"
| "apply_event stamp _ prev = prev"

section \<open>Reminder scheduler (App.tsx, lines 235-243 and 506)\<close>

text \<open>
  \<^verbatim>\<open>const tick = () => { const now = Date.now(); tasks.forEach(t => {
     if (!t.sla || t.status === "Done") return;
     const lead = (t.reminderLeadMinutes ?? 0) * 60 * 1000;
     const fireAt = new Date(t.sla).getTime() - lead;
     if (now >= fireAt && !t.reminderSent) {
       const title = `Reminder: ${t.title || "(no title)"}`;
       const body = `${t.assignee} ... due ${formatDateTime(t.sla)} (${t.reminderLeadMinutes || 0}m lead)`;
       ... notification, vibration, audio, each in its own try ...
       onFlag(t.id); } }); };\<close>
  A reminder is the side effect of one firing: the identifier handed to \<^verbatim>\<open>onFlag\<close> and
  the data of the notification (the deadline as the string that is formatted). The three
  output channels swallow their own failures, so a firing always reaches \<^verbatim>\<open>onFlag\<close>.
\<close>

record reminder =
  rem_task :: string
  rem_title :: string
  rem_assignee :: string
  rem_due :: string
  rem_lead :: int

definition should_fire :: "(string \<Rightarrow> jsnum) \<Rightarrow> int \<Rightarrow> task \<Rightarrow> bool" where
  "should_fire getTime now t =
     (if \<not> truthy_str (sla t) \<or> status t = Done then False
      else
        let lead = nullish (reminderLeadMinutes t) 0 * 60 * 1000;
            fireAt = js_sub (getTime (the (sla t))) (Num lead)
        in js_ge (Num now) fireAt \<and> \<not> truthy_bool (reminderSent t))"

definition remind :: "task \<Rightarrow> reminder" where
  "remind t =
     \<lparr>rem_task = task_id t,
      rem_title = (if title t = [] then ''(no title)'' else title t),
      rem_assignee = assignee t,
      rem_due = (case sla t of None \<Rightarrow> [] | Some s \<Rightarrow> s),
      rem_lead = (case reminderLeadMinutes t of None \<Rightarrow> 0 | Some m \<Rightarrow> m)\<rparr>"

text \<open>
  \<^verbatim>\<open>onFlag={async (id)=> { setTasks(prev=> prev.map(t=> t.id===id
       ? { ...t, reminderSent: true, updatedAt: new Date().toISOString() } : t)); ... }}\<close>
  The state update of \<^verbatim>\<open>onFlag\<close>.
\<close>

definition onFlag :: "string \<Rightarrow> string \<Rightarrow> task list \<Rightarrow> task list" where
  "onFlag stamp i prev =
     map (\<lambda>t. if task_id t = i then t\<lparr>reminderSent := Some True, updatedAt := stamp\<rparr> else t) prev"

text \<open>
  One tick reads the list it was created with; every \<^verbatim>\<open>onFlag\<close> queues an update of the
  state, and the updates are applied in order. \<open>tick_loop\<close> is the \<^verbatim>\<open>forEach\<close>: it walks
  the list that was read, collects the reminders and applies the queued updates to the
  state. One time stamp serves the updates of a tick.
\<close>

fun tick_loop :: "(string \<Rightarrow> jsnum) \<Rightarrow> int \<Rightarrow> string \<Rightarrow> task list \<Rightarrow> reminder list \<times> task list \<Rightarrow> reminder list \<times> task list" where
  "tick_loop getTime now stamp [] acc = acc"
| "tick_loop getTime now stamp (t # ts) (out, cur) =
     (if should_fire getTime now t
      then tick_loop getTime now stamp ts (out @ [remind t], onFlag stamp (task_id t) cur)
      else tick_loop getTime now stamp ts (out, cur))"

definition tick :: "(string \<Rightarrow> jsnum) \<Rightarrow> int \<Rightarrow> string \<Rightarrow> task list \<Rightarrow> reminder list \<times> task list" where
  "tick getTime now stamp tasks = tick_loop getTime now stamp tasks ([], tasks)"

text \<open>
  A run of the scheduler: a list of ticks, each with its clock reading and time stamp.
  Every tick reads the state the tick before left (the effect is set up again whenever the
  list changes), and the run gives the reminders of each tick.
\<close>

fun run_ticks :: "(string \<Rightarrow> jsnum) \<Rightarrow> (int \<times> string) list \<Rightarrow> task list \<Rightarrow> reminder list list \<times> task list" where
  "run_ticks getTime [] tasks = ([], tasks)"
| "run_ticks getTime ((now, stamp) # rest) tasks =
     (case tick getTime now stamp tasks of
        (out, tasks') \<Rightarrow>
          (case run_ticks getTime rest tasks' of
             (outs, final) \<Rightarrow> (out # outs, final)))"

text \<open>The number of reminders of a tick that are for the task of an identifier.\<close>

definition count_for :: "string \<Rightarrow> reminder list \<Rightarrow> nat" where
  "count_for i out = length (filter (\<lambda>r. rem_task r = i) out)"

text \<open>The task as \<^verbatim>\<open>onFlag\<close> rewrites it.\<close>

definition flagged :: "string \<Rightarrow> task \<Rightarrow> task" where
  "flagged stamp t = t\<lparr>reminderSent := Some True, updatedAt := stamp\<rparr>"

section \<open>Remote writes (App.tsx, lines 348 and 385-387)\<close>

text \<open>
  \<^verbatim>\<open>function taskToDb(t: Task, tripSlug: string): any { return { id: t.id, trip_slug: tripSlug,
     title: t.title || null, category: t.category || null, assignee: t.assignee, status: t.status,
     details: t.details || null, sla: t.sla || null, reminder_lead_minutes: t.reminderLeadMinutes ?? null,
     reminder_sent: t.reminderSent ?? false, created_at: t.createdAt, updated_at: t.updatedAt }; }\<close>
  The trip identifier is one fixed string of the session and is left out of the row.
\<close>

fun or_null :: "string option \<Rightarrow> string option" where
  "or_null None = None"
| "or_null (Some s) = (if s = [] then None else Some s)"

definition taskToDb :: "task \<Rightarrow> db_row" where
  "taskToDb t =
     \<lparr>r_id = task_id t, r_title = or_null (Some (title t)), r_category = or_null (Some (category t)),
      r_assignee = Some (assignee t), r_status = Some (status t), r_details = or_null (details t),
      r_sla = or_null (sla t), r_reminder_lead_minutes = reminderLeadMinutes t,
      r_reminder_sent = Some (nullish (reminderSent t) False),
      r_created_at = Some (createdAt t), r_updated_at = Some (updatedAt t)\<rparr>"

datatype remote_op =
    Upsert db_row
  | Insert db_row
  | Delete string
  | UpsertKickoff "string option"

section \<open>Application state and its transitions (App.tsx, lines 54-58, 354-395, 434, 500, 506)\<close>

text \<open>
  The state of the component: the canonical list \<^verbatim>\<open>tasks\<close> and \<^verbatim>\<open>settings\<close>, the two
  \<^verbatim>\<open>useLocalStorage\<close> states \<^verbatim>\<open>tasksLocal\<close> and \<^verbatim>\<open>settingsLocal\<close>, the two items of the
  local cache (\<open>None\<close>: no item under the key), the connection state of \<^verbatim>\<open>useSupabase\<close>
  (whether a client was created, \<^verbatim>\<open>connected\<close>, \<^verbatim>\<open>error\<close>), and the remote writes issued
  so far. Writing to the cache is taken to succeed.
\<close>

record app_state =
  tasks :: "task list"
  settings :: settings
  tasksLocal :: "task list"
  settingsLocal :: settings
  ls_tasks :: "task list option"
  ls_settings :: "settings option"
  client :: bool
  connected :: bool
  error :: "string option"
  outbox :: "remote_op list"

text \<open>
  What a user action, a live event, the scheduler or the start-up code does to the state.
  \<open>CloudLoaded\<close> is the arrival of the fetched remote list and kickoff, \<open>ResetDemo\<close> the
  reset button with the seed list it made, \<open>Imported\<close> a confirmed import of a decoded
  share link with the list and the settings found in it.
\<close>

datatype action =
    AddTask task
  | UpdateTask task
  | DeleteTask string
  | LiveEvent string change_event
  | Flag string string
  | SetKickoff "string option"
  | CloudLoaded string "db_row list" "string option"
  | ResetDemo "task list"
  | Imported "task list option" "settings option"

text \<open>
  A remote write is issued only \<^verbatim>\<open>if (client && connected)\<close>.
\<close>

definition send :: "remote_op \<Rightarrow> app_state \<Rightarrow> app_state" where
  "send op s = (if client s \<and> connected s then s\<lparr>outbox := outbox s @ [op]\<rparr> else s)"

text \<open>\<^verbatim>\<open>tasks.find(x=>x.id===id)\<close>\<close>

fun find_id :: "string \<Rightarrow> task list \<Rightarrow> task option" where
  "find_id i [] = None"
| "find_id i (x # xs) = (if task_id x = i then Some x else find_id i xs)"

text \<open>
  The state updates of each handler, before the effects run.
  \<^verbatim>\<open>const updateTask = async (next) => { setTasks(prev => prev.map(t=> t.id===next.id? next : t));
     if (client && connected) { await client.from('tasks').upsert(taskToDb(next, tripSlug)).select(); } };
   const addTask = async (t) => { setTasks(prev => [t, ...prev]);
     if (client && connected) { await client.from('tasks').insert(taskToDb(t, tripSlug)).select(); } };
   const deleteTask = async (id) => { setTasks(prev => prev.filter(t=> t.id!==id));
     if (client && connected) { await client.from('tasks').delete().eq('id', id)...; } };\<close>
  The live subscription exists only when \<^verbatim>\<open>client && connected\<close>. \<^verbatim>\<open>onFlag\<close> sends the
  flagged copy of the task it finds in the list. The kickoff handler is
  \<^verbatim>\<open>setSettings({ ...settings, kickoffISO: iso }); if (connected && client) await setKickoffISO(iso);\<close>
  and the cloud load is
  \<^verbatim>\<open>setTasks(cloudTasks); setSettings(s => ({ ...s, kickoffISO: data?.kickoff_iso ?? s.kickoffISO }));\<close>
  The import is
  \<^verbatim>\<open>if (obj.tasks && Array.isArray(obj.tasks)) setTasks(obj.tasks); if (obj.settings) setSettings(obj.settings);\<close>
\<close>

fun update :: "action \<Rightarrow> app_state \<Rightarrow> app_state" where
  "update (AddTask t) s = send (Insert (taskToDb t)) (s\<lparr>tasks := t # tasks s\<rparr>)"
| "update (UpdateTask next) s = send (Upsert (taskToDb next)) (s\<lparr>tasks := updateTask next (tasks s)\<rparr>)"
| "update (DeleteTask i) s =
     send (Delete i) (s\<lparr>tasks := filter (\<lambda>t. task_id t \<noteq> i) (tasks s)\<rparr>)"
| "update (LiveEvent stamp ev) s =
     (if client s \<and> connected s then s\<lparr>tasks := apply_event stamp ev (tasks s)\<rparr> else s)"
| "update (Flag stamp i) s =
     (let s' = s\<lparr>tasks := onFlag stamp i (tasks s)\<rparr>
      in case find_id i (tasks s) of
           None \<Rightarrow> s'
         | Some t \<Rightarrow> send (Upsert (taskToDb (t\<lparr>reminderSent := Some True, updatedAt := stamp\<rparr>))) s')"
| "update (SetKickoff k) s = send (UpsertKickoff k) (s\<lparr>settings := (settings s)\<lparr>kickoffISO := k\<rparr>\<rparr>)"
| "update (CloudLoaded stamp rows k) s =
     s\<lparr>tasks := map (dbToTask stamp) rows,
       settings := (settings s)\<lparr>kickoffISO := (case k of None \<Rightarrow> kickoffISO (settings s) | Some v \<Rightarrow> Some v)\<rparr>\<rparr>"
| "update (ResetDemo seeds) s = s\<lparr>tasks := seeds\<rparr>"
| "update (Imported ts st) s =
     (let s1 = (case ts of None \<Rightarrow> s | Some xs \<Rightarrow> s\<lparr>tasks := xs\<rparr>)
      in case st of None \<Rightarrow> s1 | Some v \<Rightarrow> s1\<lparr>settings := v\<rparr>)"

text \<open>
  The effects that run after a render:
  \<^verbatim>\<open>useEffect(() => { setTasksLocal(tasks); }, [tasks]);
   useEffect(() => { setSettingsLocal(settings); }, [settings]);\<close>
  and, inside \<^verbatim>\<open>useLocalStorage\<close>,
  \<^verbatim>\<open>useEffect(() => { ls.write(key, val); }, [key, val]);\<close>
  An effect runs when its dependency changed: \<open>old\<close> is the state of the render before.
\<close>

definition run_effects :: "app_state \<Rightarrow> app_state \<Rightarrow> app_state" where
  "run_effects old new =
     (let n1 = (if tasks new \<noteq> tasks old then new\<lparr>tasksLocal := tasks new\<rparr> else new);
          n2 = (if settings n1 \<noteq> settings old then n1\<lparr>settingsLocal := settings n1\<rparr> else n1);
          n3 = (if tasksLocal n2 \<noteq> tasksLocal old then n2\<lparr>ls_tasks := Some (tasksLocal n2)\<rparr> else n2)
      in if settingsLocal n3 \<noteq> settingsLocal old then n3\<lparr>ls_settings := Some (settingsLocal n3)\<rparr> else n3)"

definition step :: "action \<Rightarrow> app_state \<Rightarrow> app_state" where
  "step a s = run_effects s (update a s)"

text \<open>
  The first render and its effects:
  \<^verbatim>\<open>const [tasksLocal, setTasksLocal] = useLocalStorage(`fh25.tasks.${tripSlug}`, makeSeedTasks());
   const [settingsLocal, setSettingsLocal] = useLocalStorage(`fh25.settings.${tripSlug}`, { kickoffISO: undefined });
   const [tasks, setTasks] = useState(tasksLocal);
   const [settings, setSettings] = useState(settingsLocal);\<close>
  \<^verbatim>\<open>ls.read\<close> gives the fallback when the item is missing or unreadable; on mount every
  effect runs once, so both items are written.
\<close>

definition mount :: "task list option \<Rightarrow> settings option \<Rightarrow> task list \<Rightarrow> app_state" where
  "mount cached_tasks cached_settings seeds =
     (let tl = (case cached_tasks of None \<Rightarrow> seeds | Some v \<Rightarrow> v);
          sl = (case cached_settings of None \<Rightarrow> \<lparr>kickoffISO = None\<rparr> | Some v \<Rightarrow> v)
      in \<lparr>tasks = tl, settings = sl, tasksLocal = tl, settingsLocal = sl,
          ls_tasks = Some tl, ls_settings = Some sl,
          client = False, connected = False, error = None, outbox = []\<rparr>)"

definition cache_mirrors_tasks :: "app_state \<Rightarrow> bool" where
  "cache_mirrors_tasks s = (ls_tasks s = Some (tasks s) \<and> tasksLocal s = tasks s)"

section \<open>Connecting to the remote store (App.tsx, lines 315-346 and 375)\<close>

text \<open>
  What an awaited call of the remote client comes to: the promise is rejected with a
  message, or it resolves to a response \<^verbatim>\<open>{ data, error }\<close> whose \<^verbatim>\<open>error\<close> is null or
  holds a message. \<^verbatim>\<open>fetchCloudTasks\<close> reads that field:
  \<^verbatim>\<open>const { data, error } = await client.from('tasks').select('*')...; if (error) throw error;
   return (data || []).map(dbToTask);\<close>
\<close>

datatype 'a awaited = Rejected string | Resolved "string option" 'a

text \<open>
  \<^verbatim>\<open>useEffect(() => { const env = getEnvSupabase(); if (env) { const c = createClient(...); setClient(c); } }, []);
   useEffect(() => { const run = async () => { if (!client) return;
       try { await client.from('trips').upsert({ slug: tripSlug }).select(); setConnected(true); }
       catch (e: any) { setError(String(e.message || e)); setConnected(false); } };
     run(); }, [client, tripSlug]);\<close>
  \<open>creds\<close> says whether \<^verbatim>\<open>getEnvSupabase\<close> found a pair of credentials. The effect runs
  once for the client; nothing calls it again.
\<close>

definition useSupabase :: "bool \<Rightarrow> unit awaited \<Rightarrow> app_state \<Rightarrow> app_state" where
  "useSupabase creds handshake s =
     (if \<not> creds then s
      else
        (case handshake of
           Rejected msg \<Rightarrow> s\<lparr>client := True, error := Some msg, connected := False\<rparr>
         | Resolved err u \<Rightarrow> s\<lparr>client := True, connected := True\<rparr>))"

text \<open>
  \<^verbatim>\<open>useEffect(() => { (async () => { if (client && connected) { try {
       const cloudTasks = await fetchCloudTasks(client, tripSlug); setTasks(cloudTasks);
       try { const { data } = await client.from('trips').select('kickoff_iso')...maybeSingle();
             setSettings(s => ({ ...s, kickoffISO: data?.kickoff_iso ?? s.kickoffISO })); } catch {}
     } catch {} } })(); }, [client, connected, tripSlug]);\<close>
  The fetch gives the rows, the kickoff query the kickoff.
\<close>

definition load_cloud :: "string \<Rightarrow> (db_row list) awaited \<Rightarrow> string option \<Rightarrow> app_state \<Rightarrow> app_state" where
  "load_cloud stamp fetch kickoff s =
     (if client s \<and> connected s then
        (case fetch of
           Rejected msg \<Rightarrow> s
         | Resolved err rows \<Rightarrow>
             (case err of
                Some e \<Rightarrow> s
              | None \<Rightarrow> step (CloudLoaded stamp rows kickoff) s))
      else s)"

text \<open>The start of a session: mount, connect, load.\<close>

definition startup :: "task list option \<Rightarrow> settings option \<Rightarrow> task list \<Rightarrow> bool \<Rightarrow> unit awaited
                        \<Rightarrow> string \<Rightarrow> (db_row list) awaited \<Rightarrow> string option \<Rightarrow> app_state" where
  "startup cached_tasks cached_settings seeds creds handshake stamp fetch kickoff =
     load_cloud stamp fetch kickoff
       (useSupabase creds handshake (mount cached_tasks cached_settings seeds))"

section \<open>Share-state codec and import (App.tsx, lines 392-395)\<close>

text \<open>
  The built-in functions of the host that the codec calls. Each is a parameter; \<open>None\<close>
  is a thrown exception. \<^verbatim>\<open>escape\<close> and \<^verbatim>\<open>unescape\<close> never throw. The type \<open>'v\<close> is the
  type of the values that are serialised; the characters of a string stand for the code
  units of the host's strings.
\<close>

record 'v platform =
  JSON_stringify :: "'v \<Rightarrow> string option"
  JSON_parse :: "string \<Rightarrow> 'v option"
  encodeURIComponent :: "string \<Rightarrow> string option"
  decodeURIComponent :: "string \<Rightarrow> string option"
  escape :: "string \<Rightarrow> string"
  unescape :: "string \<Rightarrow> string"
  btoa :: "string \<Rightarrow> string option"
  atob :: "string \<Rightarrow> string option"

text \<open>\<^verbatim>\<open>try { body } catch { handler }\<close> for two computations that return a value.\<close>

definition try_catch :: "'a option \<Rightarrow> 'a option \<Rightarrow> 'a option" where
  "try_catch body handler = (case body of Some v \<Rightarrow> Some v | None \<Rightarrow> handler)"


definition decodeState :: "'v platform \<Rightarrow> string \<Rightarrow> 'v option" where
  "decodeState P s =
     try_catch
       (Option.bind (atob P s) (\<lambda>b.
          Option.bind (decodeURIComponent P (escape P b)) (JSON_parse P)))
       (Option.bind (atob P s) (JSON_parse P))"

text \<open>
  A decoded value as the import reads it. \<open>Nullish\<close> is \<^verbatim>\<open>null\<close>, on which reading a
  property throws. Of every other value the import reads two properties:
  \<open>Value ts st\<close> has \<open>ts = Some xs\<close> when \<^verbatim>\<open>obj.tasks\<close> is truthy and an array, which is then
  taken as the list \<open>xs\<close>, and \<open>st = Some v\<close> when \<^verbatim>\<open>obj.settings\<close> is truthy. The snapshot
  \<^verbatim>\<open>{ tasks, settings }\<close> that \<^verbatim>\<open>openShare\<close> encodes is \<open>Value (Some tasks) (Some settings)\<close>.
\<close>

datatype decoded = Nullish | Value "task list option" "settings option"

definition snapshot :: "task list \<Rightarrow> settings \<Rightarrow> decoded" where
  "snapshot ts st = Value (Some ts) (Some st)"

text \<open>
  \<^verbatim>\<open>useEffect(()=>{ if (location.hash.startsWith('#state=')){
       const stateStr = location.hash.slice('#state='.length);
       try { const obj = decodeState(stateStr);
             if (confirm('Import shared state from link? ...')){
               if (obj.tasks && Array.isArray(obj.tasks)) setTasks(obj.tasks);
               if (obj.settings) setSettings(obj.settings); } }
       catch { alert('Bad share link'); }
       try { history.replaceState(null, '', location.pathname + location.search); } catch {} } },[]);\<close>
  \<open>answer\<close> is what the user answers to \<^verbatim>\<open>confirm\<close>. The result is the state and the
  alerts shown.
\<close>

definition import_hash :: "decoded platform \<Rightarrow> bool \<Rightarrow> string \<Rightarrow> app_state \<Rightarrow> app_state \<times> string list" where
  "import_hash P answer hash s =
     (if take 7 hash = ''#state='' then
        (case decodeState P (drop 7 hash) of
           None \<Rightarrow> (s, [''Bad share link''])
         | Some obj \<Rightarrow>
             if answer then
               (case obj of
                  Nullish \<Rightarrow> (s, [''Bad share link''])
                | Value ts st \<Rightarrow> (step (Imported ts st) s, []))
             else (s, []))
      else (s, []))"

section \<open>The classifier with the exceptions of the host\<close>

text \<open>
  A value of the host language as far as data goes: \<^verbatim>\<open>undefined\<close>, \<^verbatim>\<open>null\<close>, a boolean,
  a number, a string, an array, or an object with its properties in order.
\<close>

datatype jsval =
    JUndefined
  | JNull
  | JBool bool
  | JNumber jsnum
  | JString string
  | JArray "jsval list"
  | JObject "(string \<times> jsval) list"

datatype exn = TypeError

text \<open>
  \<^verbatim>\<open>t.k\<close> for a property name \<open>k\<close> that is no array index and not \<^verbatim>\<open>length\<close>: reading a
  property of \<^verbatim>\<open>undefined\<close> or \<^verbatim>\<open>null\<close> throws a TypeError, a missing property reads as
  \<^verbatim>\<open>undefined\<close>, and so does any such property of a boolean, a number, a string or an
  array.
\<close>

fun get_prop :: "jsval \<Rightarrow> string \<Rightarrow> exn + jsval" where
  "get_prop JUndefined k = Inl TypeError"
| "get_prop JNull k = Inl TypeError"
| "get_prop (JObject fs) k = Inr (case map_of fs k of None \<Rightarrow> JUndefined | Some v \<Rightarrow> v)"
| "get_prop _ k = Inr JUndefined"

text \<open>Truthiness of a value (\<^verbatim>\<open>!v\<close> is its negation).\<close>

fun truthy :: "jsval \<Rightarrow> bool" where
  "truthy JUndefined = False"
| "truthy JNull = False"
| "truthy (JBool b) = b"
| "truthy (JNumber (Num n)) = (n \<noteq> 0)"
| "truthy (JNumber NaN) = False"
| "truthy (JString s) = (s \<noteq> [])"
| "truthy (JArray xs) = True"
| "truthy (JObject fs) = True"

text \<open>
  \<^verbatim>\<open>new Date(v).getTime()\<close>. On a string the constructor parses and never throws: this is
  \<open>getTime\<close>. On any other value it first converts the value to a primitive, which can throw
  for an object: that part of the host is the parameter \<open>dateOf\<close>.
\<close>

fun date_time :: "(string \<Rightarrow> jsnum) \<Rightarrow> (jsval \<Rightarrow> exn + jsnum) \<Rightarrow> jsval \<Rightarrow> exn + jsnum" where
  "date_time getTime dateOf (JString s) = Inr (getTime s)"
| "date_time getTime dateOf v = dateOf v"

text \<open>
  The body of \<^verbatim>\<open>dueState\<close> (App.tsx, line 250) on an argument that can be any value, with
  every operation that can throw as a branch: the two property reads and the date
  constructor. \<^verbatim>\<open>&&\<close> reads \<^verbatim>\<open>t.status\<close> only when \<^verbatim>\<open>now > due\<close>. The comparisons,
  \<^verbatim>\<open>Math.max\<close> and \<^verbatim>\<open>Math.floor\<close> do not throw. The body reads the clock at every call and
  no other variable outside its argument, so the clock reading is the one further
  argument.
\<close>

definition dueState_js :: "(string \<Rightarrow> jsnum) \<Rightarrow> (jsval \<Rightarrow> exn + jsnum) \<Rightarrow> int \<Rightarrow> jsval \<Rightarrow> exn + due_state" where
  "dueState_js getTime dateOf now t =
     (case get_prop t ''sla'' of
        Inl e \<Rightarrow> Inl e
      | Inr v \<Rightarrow>
          if \<not> truthy v then Inr \<lparr>overdue = False, dueSoon = False, soonMins = Num 0\<rparr>
          else
            (case date_time getTime dateOf v of
               Inl e \<Rightarrow> Inl e
             | Inr due \<Rightarrow>
                 (case (if js_gt (Num now) due
                        then (case get_prop t ''status'' of
                                Inl e \<Rightarrow> Inl e
                              | Inr st \<Rightarrow> Inr (st \<noteq> JString ''Done''))
                        else Inr False) of
                    Inl e \<Rightarrow> Inl e
                  | Inr od \<Rightarrow>
                      let delta = js_max (Num 0) (js_sub due (Num now));
                          sm = js_floor_div delta 60000
                      in Inr \<lparr>overdue = od, dueSoon = (\<not> od \<and> js_le sm (Num 240)),
                              soonMins = sm\<rparr>)))"

text \<open>
  A task as the object it is in the host: the strings of \<^verbatim>\<open>STATUSES\<close> for the status,
  and \<^verbatim>\<open>undefined\<close> for an absent optional field.
\<close>

fun status_name :: "status \<Rightarrow> string" where
  "status_name NotStarted = ''Not Started''"
| "status_name InProgress = ''In Progress''"
| "status_name Done = ''Done''"

fun opt_string :: "string option \<Rightarrow> jsval" where
  "opt_string None = JUndefined"
| "opt_string (Some s) = JString s"

fun opt_number :: "int option \<Rightarrow> jsval" where
  "opt_number None = JUndefined"
| "opt_number (Some n) = JNumber (Num n)"

fun opt_bool :: "bool option \<Rightarrow> jsval" where
  "opt_bool None = JUndefined"
| "opt_bool (Some b) = JBool b"

definition task_obj :: "task \<Rightarrow> jsval" where
  "task_obj t =
     JObject
       [(''id'', JString (task_id t)), (''title'', JString (title t)),
        (''category'', JString (category t)), (''assignee'', JString (assignee t)),
        (''status'', JString (status_name (status t))), (''details'', opt_string (details t)),
        (''sla'', opt_string (sla t)), (''reminderLeadMinutes'', opt_number (reminderLeadMinutes t)),
        (''reminderSent'', opt_bool (reminderSent t)),
        (''createdAt'', JString (createdAt t)), (''updatedAt'', JString (updatedAt t))]"

text \<open>
  An object is a task as far as the classifier reads it when its \<^verbatim>\<open>sla\<close> is absent or a
  string, well-formed or not.
\<close>

definition sla_is_text :: "(string \<times> jsval) list \<Rightarrow> bool" where
  "sla_is_text fs =
     (case map_of fs ''sla'' of
        None \<Rightarrow> True
      | Some JUndefined \<Rightarrow> True
      | Some (JString s) \<Rightarrow> True
      | Some _ \<Rightarrow> False)"

section \<open>Sample data for the examples\<close>

text \<open>
  A date parser for the examples: three ISO strings with the milliseconds that
  \<^verbatim>\<open>new Date(iso).getTime()\<close> gives for them, and \<open>NaN\<close> for every other string.
\<close>

definition sample_getTime :: "string \<Rightarrow> jsnum" where
  "sample_getTime s =
     (if s = ''1970-01-01T00:00:00.000Z'' then Num 0
      else if s = ''2025-01-01T00:00:00.000Z'' then Num 1735689600000
      else if s = ''2025-01-01T04:00:00.000Z'' then Num 1735704000000
      else NaN)"

definition sample_task :: task where
  "sample_task =
     \<lparr>task_id = ''k3x9'', title = ''Flights'', category = ''Flights'', assignee = ''Buzza'',
      status = NotStarted, details = None, sla = Some ''2025-01-01T04:00:00.000Z'',
      reminderLeadMinutes = Some 60, reminderSent = Some False,
      createdAt = ''2024-12-01T00:00:00.000Z'', updatedAt = ''2024-12-01T00:00:00.000Z''\<rparr>"

definition sample_row :: db_row where
  "sample_row =
     \<lparr>r_id = ''k3x9'', r_title = Some ''Flights (booked)'', r_category = None, r_assignee = None,
      r_status = Some Done, r_details = None, r_sla = None, r_reminder_lead_minutes = None,
      r_reminder_sent = None, r_created_at = Some ''2024-12-01T00:00:00.000Z'',
      r_updated_at = Some ''2024-12-03T00:00:00.000Z''\<rparr>"

text \<open>
  A stand-in for the host that knows two values: the snapshot of the empty list with no
  kickoff, and the empty object \<^verbatim>\<open>{}\<close>, which has neither a task array nor settings. The
  texts, the percent-encoded texts and the tokens are those the host's functions give for
  them, and every function throws on any other argument.
\<close>

definition sample_json :: string where
  \<open>sample_json = ''{"tasks":[],"settings":{}}''\<close>

definition sample_uri :: string where
  "sample_uri = ''%7B%22tasks%22%3A%5B%5D%2C%22settings%22%3A%7B%7D%7D''"

definition sample_token :: string where
  "sample_token = ''eyJ0YXNrcyI6W10sInNldHRpbmdzIjp7fX0=''"

definition sample_platform :: "decoded platform" where
  "sample_platform =
     \<lparr>JSON_stringify =
        (\<lambda>v. if v = snapshot [] \<lparr>kickoffISO = None\<rparr> then Some sample_json
             else if v = Value None None then Some ''{}'' else None),
      JSON_parse =
        (\<lambda>j. if j = sample_json then Some (snapshot [] \<lparr>kickoffISO = None\<rparr>)
             else if j = ''{}'' then Some (Value None None) else None),
      encodeURIComponent =
        (\<lambda>j. if j = sample_json then Some sample_uri
             else if j = ''{}'' then Some ''%7B%7D'' else None),
      decodeURIComponent =
        (\<lambda>u. if u = sample_uri then Some sample_json
             else if u = ''%7B%7D'' then Some ''{}'' else None),
      escape = (\<lambda>b. if b = sample_json then sample_uri else if b = ''{}'' then ''%7B%7D'' else b),
      unescape = (\<lambda>u. if u = sample_uri then sample_json else if u = ''%7B%7D'' then ''{}'' else u),
      btoa =
        (\<lambda>b. if b = sample_json then Some sample_token
             else if b = ''{}'' then Some ''e30='' else None),
      atob =
        (\<lambda>t. if t = sample_token then Some sample_json
             else if t = ''e30='' then Some ''{}'' else None)\<rparr>"

section \<open>Properties of the classifier\<close>

lemma floor_max_commute: "js_floor_div (js_max (Num 0) x) 60000 = js_max (Num 0) (js_floor_div x 60000)"
proof (cases x)
  case (Num a)
  have "max 0 a div 60000 = max 0 (a div (60000::int))"
    by (cases "0 \<le> a") (simp_all add: max_def pos_imp_zdiv_nonneg_iff div_neg_pos_less0 not_le)
  with Num show ?thesis by simp
next
  case NaN
  then show ?thesis by simp
qed

text \<open>
  C2. For every task and every time, the classifier of the code equals the reference
  definition of the specification; in particular a task whose status is Done is never
  overdue, whatever its deadline.
\<close>

theorem dueState_equals_classify:
  "dueState getTime now t = classify getTime now t
   \<and> overdue (dueState getTime now (t\<lparr>status := Done\<rparr>)) = False"
proof -
  have a: "dueState getTime now t = classify getTime now t"
    by (cases "sla t")
       (simp_all add: dueState_def classify_def has_deadline_def Let_def floor_max_commute)
  have b: "overdue (dueState getTime now (t\<lparr>status := Done\<rparr>)) = False"
    by (cases "sla t") (simp_all add: dueState_def Let_def)
  from a b show ?thesis by simp
qed


lemma dueState_valid:
  assumes "sla t = Some s" "s \<noteq> []" "getTime s = Num d"
  shows "dueState getTime now t =
           \<lparr>overdue = (d < now \<and> status t \<noteq> Done),
            dueSoon = (\<not> (d < now \<and> status t \<noteq> Done) \<and> max 0 (d - now) div 60000 \<le> 240),
            soonMins = Num (max 0 (d - now) div 60000)\<rparr>"
  using assms by (simp add: dueState_def Let_def)

text \<open>
  C10. A task whose status is Done and whose deadline is at or before now is classified
  as not overdue, with zero minutes remaining, and as due soon: completing a task
  suppresses overdue, not due-soon.
\<close>

theorem done_past_deadline_due_soon:
  assumes "status t = Done" and "sla t = Some s" and "s \<noteq> []"
    and "getTime s = Num d" and "d \<le> now"
  shows "dueState getTime now t = \<lparr>overdue = False, dueSoon = True, soonMins = Num 0\<rparr>"
  using assms by (simp add: dueState_def Let_def max_def)

theorem done_past_deadline_due_soon_witness:
  "dueState sample_getTime 1735704000000 (sample_task\<lparr>status := Done\<rparr>)
     = \<lparr>overdue = False, dueSoon = True, soonMins = Num 0\<rparr>"
  by (rule done_past_deadline_due_soon [where s = "''2025-01-01T04:00:00.000Z''" and d = 1735704000000])
     (simp_all add: sample_task_def sample_getTime_def)


section \<open>Properties of the field edits\<close>

lemma apply_edit_task_id:
  "apply_edit toISO toNumber stamp e t = Some next \<Longrightarrow> task_id next = task_id t"
  by (cases e) (auto split: if_splits option.splits)

lemma updateTask_member:
  assumes "t \<in> set prev" and "task_id next = task_id t"
  shows "next \<in> set (updateTask next prev)"
proof -
  have "(\<lambda>u. if task_id u = task_id next then next else u) t
          \<in> (\<lambda>u. if task_id u = task_id next then next else u) ` set prev"
    using assms(1) by (rule imageI)
  with assms(2) show ?thesis by (simp add: updateTask_def)
qed

lemma updateTask_same_id:
  "u \<in> set (updateTask next prev) \<Longrightarrow> task_id u = task_id next \<Longrightarrow> u = next"
  by (auto simp: updateTask_def split: if_splits)

text \<open>
  C3. An edit of the deadline or of the reminder lead gives a task whose reminder-sent
  flag is false, whatever the flag was; an edit of the title, the category, the assignee
  or the status leaves the flag as it was. The edited task replaces the row of that
  identifier in the list.
\<close>

theorem edit_resets_reminderSent:
  assumes "apply_edit toISO toNumber stamp e t = Some next"
  shows "(case e of
            EditSla v \<Rightarrow> reminderSent next = Some False
          | EditLead v \<Rightarrow> reminderSent next = Some False
          | EditTitle v \<Rightarrow> reminderSent next = reminderSent t
          | EditCategory v \<Rightarrow> reminderSent next = reminderSent t
          | EditAssignee v \<Rightarrow> reminderSent next = reminderSent t
          | EditStatus v \<Rightarrow> reminderSent next = reminderSent t)
         \<and> (t \<in> set prev \<longrightarrow>
              next \<in> set (edit_row toISO toNumber stamp e t prev)
              \<and> (\<forall>u \<in> set (edit_row toISO toNumber stamp e t prev).
                     task_id u = task_id t \<longrightarrow> u = next))"
proof -
  have flag: "(case e of
            EditSla v \<Rightarrow> reminderSent next = Some False
          | EditLead v \<Rightarrow> reminderSent next = Some False
          | EditTitle v \<Rightarrow> reminderSent next = reminderSent t
          | EditCategory v \<Rightarrow> reminderSent next = reminderSent t
          | EditAssignee v \<Rightarrow> reminderSent next = reminderSent t
          | EditStatus v \<Rightarrow> reminderSent next = reminderSent t)"
    using assms by (cases e) (auto split: if_splits option.splits)
  have same: "task_id next = task_id t"
    using assms by (rule apply_edit_task_id)
  have row: "edit_row toISO toNumber stamp e t prev = updateTask next prev"
    using assms by (simp add: edit_row_def)
  have "t \<in> set prev \<Longrightarrow> next \<in> set (updateTask next prev)"
    using same by (simp add: updateTask_member)
  moreover have "\<forall>u \<in> set (updateTask next prev). task_id u = task_id t \<longrightarrow> u = next"
    using same updateTask_same_id by metis
  ultimately show ?thesis using flag row by simp
qed

theorem edit_resets_reminderSent_witness:
  "apply_edit (\<lambda>v. Some ''2025-01-02T00:00:00.000Z'') (\<lambda>v. 30) ''2024-12-02T00:00:00.000Z''
     (EditSla ''2025-01-02T10:00'') (sample_task\<lparr>reminderSent := Some True\<rparr>)
     = Some (sample_task\<lparr>sla := Some ''2025-01-02T00:00:00.000Z'',
                          updatedAt := ''2024-12-02T00:00:00.000Z'', reminderSent := Some False\<rparr>)
   \<and> reminderSent (sample_task\<lparr>sla := Some ''2025-01-02T00:00:00.000Z'',
                          updatedAt := ''2024-12-02T00:00:00.000Z'', reminderSent := Some False\<rparr>)
       = Some False
   \<and> sample_task\<lparr>sla := Some ''2025-01-02T00:00:00.000Z'',
                          updatedAt := ''2024-12-02T00:00:00.000Z'', reminderSent := Some False\<rparr>
       \<in> set (edit_row (\<lambda>v. Some ''2025-01-02T00:00:00.000Z'') (\<lambda>v. 30) ''2024-12-02T00:00:00.000Z''
            (EditSla ''2025-01-02T10:00'') (sample_task\<lparr>reminderSent := Some True\<rparr>)
            [sample_task\<lparr>reminderSent := Some True\<rparr>])"
proof -
  let ?t = "sample_task\<lparr>reminderSent := Some True\<rparr>"
  let ?n = "sample_task\<lparr>sla := Some ''2025-01-02T00:00:00.000Z'',
                          updatedAt := ''2024-12-02T00:00:00.000Z'', reminderSent := Some False\<rparr>"
  have e: "apply_edit (\<lambda>v. Some ''2025-01-02T00:00:00.000Z'') (\<lambda>v. 30) ''2024-12-02T00:00:00.000Z''
     (EditSla ''2025-01-02T10:00'') ?t = Some ?n"
    by simp
  have m: "?t \<in> set [?t]" by simp
  from edit_resets_reminderSent [OF e, of "[?t]"] m e show ?thesis
    by simp
qed

section \<open>Properties of the live-event merge\<close>

lemma exists_id_iff: "exists_id i xs \<longleftrightarrow> i \<in> task_id ` set xs"
  by (induction xs) auto

lemma dbToTask_id: "task_id (dbToTask stamp r) = r_id r"
  by (simp add: dbToTask_def)

lemma map_replace_absent:
  "\<not> exists_id i xs \<Longrightarrow> map (\<lambda>t. if task_id t = i then n else t) xs = xs"
  by (induction xs) auto

lemma filter_absent:
  "\<not> exists_id i xs \<Longrightarrow> filter (\<lambda>t. task_id t \<noteq> i) xs = xs"
  by (induction xs) auto

lemma map_replace_ids:
  "task_id n = i \<Longrightarrow> map task_id (map (\<lambda>t. if task_id t = i then n else t) xs) = map task_id xs"
  by (induction xs) auto

lemma filter_removes_one:
  "distinct (map task_id xs) \<Longrightarrow> exists_id i xs \<Longrightarrow>
     Suc (length (filter (\<lambda>t. task_id t \<noteq> i) xs)) = length xs"
proof (induction xs)
  case Nil
  then show ?case by simp
next
  case (Cons x xs)
  show ?case
  proof (cases "task_id x = i")
    case True
    with Cons.prems(1) have "\<not> exists_id i xs" by (auto simp: exists_id_iff)
    then have "filter (\<lambda>t. task_id t \<noteq> i) xs = xs" by (rule filter_absent)
    with True show ?thesis by simp
  next
    case False
    with Cons show ?thesis by simp
  qed
qed

lemma apply_event_distinct:
  "distinct (map task_id prev) \<Longrightarrow> distinct (map task_id (apply_event stamp ev prev))"
proof (induction stamp ev prev rule: apply_event.induct)
  case (1 stamp new prev)
  then show ?case by (simp add: exists_id_iff dbToTask_id)
next
  case (2 stamp new prev)
  have "map task_id (map (\<lambda>t. if task_id t = r_id new then dbToTask stamp new else t) prev)
          = map task_id prev"
    by (rule map_replace_ids) (rule dbToTask_id)
  with 2 show ?case by (simp only: apply_event.simps)
next
  case (3 stamp old prev)
  then show ?case by (simp add: distinct_map_filter)
qed simp_all

text \<open>
  C4. The merge of a live change event into the canonical list. INSERT of a row whose
  identifier is in the list leaves the list as it is, and otherwise prepends the new
  task. UPDATE keeps the length and replaces, position by position, the entries of the
  row's identifier and no other, so it is a no-op when no entry matches. DELETE leaves
  exactly the entries of another identifier, removes one entry when identifiers are
  unique and the identifier is present, and is a no-op when it is absent. No event
  introduces a duplicate identifier.
\<close>

theorem live_event_merge:
  "(exists_id (r_id row) prev \<longrightarrow> apply_event stamp (INSERT (Some row)) prev = prev)
   \<and> (\<not> exists_id (r_id row) prev \<longrightarrow>
        apply_event stamp (INSERT (Some row)) prev = dbToTask stamp row # prev)
   \<and> length (apply_event stamp (UPDATE (Some row)) prev) = length prev
   \<and> (\<forall>i < length prev.
        apply_event stamp (UPDATE (Some row)) prev ! i
          = (if task_id (prev ! i) = r_id row then dbToTask stamp row else prev ! i))
   \<and> (\<not> exists_id (r_id row) prev \<longrightarrow> apply_event stamp (UPDATE (Some row)) prev = prev)
   \<and> \<not> exists_id (r_id row) (apply_event stamp (DELETE (Some row)) prev)
   \<and> set (apply_event stamp (DELETE (Some row)) prev) = {t \<in> set prev. task_id t \<noteq> r_id row}
   \<and> (distinct (map task_id prev) \<and> exists_id (r_id row) prev \<longrightarrow>
        Suc (length (apply_event stamp (DELETE (Some row)) prev)) = length prev)
   \<and> (\<not> exists_id (r_id row) prev \<longrightarrow> apply_event stamp (DELETE (Some row)) prev = prev)
   \<and> (distinct (map task_id prev) \<longrightarrow> distinct (map task_id (apply_event stamp ev prev)))"
proof -
  have ins1: "exists_id (r_id row) prev \<longrightarrow> apply_event stamp (INSERT (Some row)) prev = prev"
    by simp
  have ins2: "\<not> exists_id (r_id row) prev \<longrightarrow>
        apply_event stamp (INSERT (Some row)) prev = dbToTask stamp row # prev"
    by simp
  have upd1: "length (apply_event stamp (UPDATE (Some row)) prev) = length prev"
    by simp
  have upd2: "\<forall>i < length prev.
        apply_event stamp (UPDATE (Some row)) prev ! i
          = (if task_id (prev ! i) = r_id row then dbToTask stamp row else prev ! i)"
    by simp
  have upd3: "\<not> exists_id (r_id row) prev \<longrightarrow> apply_event stamp (UPDATE (Some row)) prev = prev"
    by (simp add: map_replace_absent)
  have del1: "\<not> exists_id (r_id row) (apply_event stamp (DELETE (Some row)) prev)"
    by (auto simp: exists_id_iff)
  have del2: "set (apply_event stamp (DELETE (Some row)) prev) = {t \<in> set prev. task_id t \<noteq> r_id row}"
    by simp
  have del3: "distinct (map task_id prev) \<and> exists_id (r_id row) prev \<longrightarrow>
        Suc (length (apply_event stamp (DELETE (Some row)) prev)) = length prev"
    by (simp add: filter_removes_one)
  have del4: "\<not> exists_id (r_id row) prev \<longrightarrow> apply_event stamp (DELETE (Some row)) prev = prev"
    by (simp add: filter_absent)
  have dis: "distinct (map task_id prev) \<longrightarrow> distinct (map task_id (apply_event stamp ev prev))"
    by (simp add: apply_event_distinct)
  from ins1 ins2 upd1 upd2 upd3 del1 del2 del3 del4 dis show ?thesis
    by (intro conjI)
qed

theorem live_event_merge_witness:
  "apply_event ''2025-01-01T00:00:00.000Z'' (INSERT (Some sample_row)) [sample_task] = [sample_task]
   \<and> apply_event ''2025-01-01T00:00:00.000Z'' (INSERT (Some (sample_row\<lparr>r_id := ''q7''\<rparr>))) [sample_task]
       = [dbToTask ''2025-01-01T00:00:00.000Z'' (sample_row\<lparr>r_id := ''q7''\<rparr>), sample_task]
   \<and> apply_event ''2025-01-01T00:00:00.000Z'' (UPDATE (Some (sample_row\<lparr>r_id := ''q7''\<rparr>))) [sample_task]
       = [sample_task]
   \<and> apply_event ''2025-01-01T00:00:00.000Z'' (DELETE (Some (sample_row\<lparr>r_id := ''q7''\<rparr>))) [sample_task]
       = [sample_task]
   \<and> Suc (length (apply_event ''2025-01-01T00:00:00.000Z'' (DELETE (Some sample_row)) [sample_task])) = 1"
proof -
  have p: "exists_id (r_id sample_row) [sample_task]"
    by (simp add: sample_row_def sample_task_def)
  have q: "\<not> exists_id (r_id (sample_row\<lparr>r_id := ''q7''\<rparr>)) [sample_task]"
    by (simp add: sample_task_def)
  have d: "distinct (map task_id [sample_task])" by simp
  from live_event_merge [of sample_row "[sample_task]" "''2025-01-01T00:00:00.000Z''"
        "INSERT (Some sample_row)"]
       live_event_merge [of "sample_row\<lparr>r_id := ''q7''\<rparr>" "[sample_task]" "''2025-01-01T00:00:00.000Z''"
        "INSERT (Some sample_row)"]
       p q d
  show ?thesis by simp
qed

section \<open>Properties of the reminder scheduler\<close>

lemma tick_loop_out:
  "fst (tick_loop gt now stamp xs (out, cur)) = out @ map remind (filter (should_fire gt now) xs)"
  by (induction xs arbitrary: out cur) auto

lemma flagged_simps [simp]:
  "task_id (flagged stamp t) = task_id t"
  "flagged stamp (flagged stamp t) = flagged stamp t"
  "reminderSent (flagged stamp t) = Some True"
  "sla (flagged stamp t) = sla t"
  "status (flagged stamp t) = status t"
  "reminderLeadMinutes (flagged stamp t) = reminderLeadMinutes t"
  by (simp_all add: flagged_def)

lemma onFlag_flagged:
  "onFlag stamp i prev = map (\<lambda>t. if task_id t = i then flagged stamp t else t) prev"
  by (simp add: onFlag_def flagged_def)

lemma tick_loop_state:
  "snd (tick_loop gt now stamp xs (out, cur))
     = map (\<lambda>t. if task_id t \<in> task_id ` {x \<in> set xs. should_fire gt now x}
                 then flagged stamp t else t) cur"
proof (induction xs arbitrary: out cur)
  case Nil
  then show ?case by simp
next
  case (Cons x xs)
  show ?case
  proof (cases "should_fire gt now x")
    case True
    have "snd (tick_loop gt now stamp (x # xs) (out, cur))
            = snd (tick_loop gt now stamp xs (out @ [remind x], onFlag stamp (task_id x) cur))"
      using True by simp
    also have "\<dots> = map (\<lambda>t. if task_id t \<in> task_id ` {y \<in> set xs. should_fire gt now y}
                 then flagged stamp t else t) (onFlag stamp (task_id x) cur)"
      by (rule Cons.IH)
    also have "\<dots> = map (\<lambda>t. if task_id t \<in> task_id ` {y \<in> set (x # xs). should_fire gt now y}
                 then flagged stamp t else t) cur"
      using True by (auto simp: onFlag_flagged)
    finally show ?thesis .
  next
    case False
    have "{y \<in> set (x # xs). should_fire gt now y} = {y \<in> set xs. should_fire gt now y}"
      using False by auto
    with False Cons.IH show ?thesis by simp
  qed
qed

lemma tick_eq:
  "tick gt now stamp ts =
     (map remind (filter (should_fire gt now) ts),
      map (\<lambda>t. if task_id t \<in> task_id ` {x \<in> set ts. should_fire gt now x}
                 then flagged stamp t else t) ts)"
  using tick_loop_out [of gt now stamp ts "[]" ts] tick_loop_state [of gt now stamp ts "[]" ts]
  by (simp add: tick_def prod_eq_iff)

lemma fired_id_iff:
  assumes "distinct (map task_id ts)" "t \<in> set ts"
  shows "task_id t \<in> task_id ` {x \<in> set ts. should_fire gt now x} \<longleftrightarrow> should_fire gt now t"
proof
  assume "task_id t \<in> task_id ` {x \<in> set ts. should_fire gt now x}"
  then obtain x where x: "x \<in> set ts" "should_fire gt now x" "task_id x = task_id t" by auto
  from assms x(1,3) have "x = t" by (meson distinct_map inj_onD)
  with x(2) show "should_fire gt now t" by simp
next
  assume "should_fire gt now t"
  with assms(2) show "task_id t \<in> task_id ` {x \<in> set ts. should_fire gt now x}" by auto
qed

lemma tick_distinct_state:
  assumes "distinct (map task_id ts)"
  shows "snd (tick gt now stamp ts) = map (\<lambda>t. if should_fire gt now t then flagged stamp t else t) ts"
  using assms by (simp add: tick_eq fired_id_iff)

lemma tick_ids: "map task_id (snd (tick gt now stamp ts)) = map task_id ts"
  by (simp add: tick_eq comp_def if_distrib [of task_id])

lemma count_for_tick:
  assumes "distinct (map task_id ts)" "t \<in> set ts"
  shows "count_for (task_id t) (fst (tick gt now stamp ts)) = (if should_fire gt now t then 1 else 0)"
proof -
  have "filter (\<lambda>r. rem_task r = task_id t) (map remind (filter (should_fire gt now) ts))
          = map remind (filter (\<lambda>x. task_id x = task_id t \<and> should_fire gt now x) ts)"
    by (simp add: filter_map comp_def remind_def conj_commute)
  moreover have "filter (\<lambda>x. task_id x = task_id t \<and> should_fire gt now x) ts
          = (if should_fire gt now t then [t] else [])"
    using assms
  proof (induction ts)
    case Nil
    then show ?case by simp
  next
    case (Cons a ts)
    then show ?case by (cases "a = t") (auto simp: image_iff filter_empty_conv)
  qed
  ultimately show ?thesis by (simp add: count_for_def tick_eq)
qed


lemma should_fire_valid:
  assumes "sla t = Some s" "s \<noteq> []" "status t \<noteq> Done" "gt s = Num d"
  shows "should_fire gt now t \<longleftrightarrow>
           (d - nullish (reminderLeadMinutes t) 0 * 60000 \<le> now \<and> \<not> truthy_bool (reminderSent t))"
  using assms by (simp add: should_fire_def Let_def mult.commute)

lemma should_fire_flagged: "\<not> should_fire gt now (flagged stamp t)"
  by (simp add: should_fire_def Let_def)

lemma tick_keeps_quiet:
  assumes "distinct (map task_id ts)" "t \<in> set ts" "\<not> should_fire gt now t"
  shows "t \<in> set (snd (tick gt now stamp ts))"
proof -
  have "(\<lambda>x. if should_fire gt now x then flagged stamp x else x) t
          \<in> (\<lambda>x. if should_fire gt now x then flagged stamp x else x) ` set ts"
    using assms(2) by (rule imageI)
  with assms(1,3) show ?thesis by (simp add: tick_distinct_state)
qed

lemma tick_flags_fired:
  assumes "distinct (map task_id ts)" "t \<in> set ts" "should_fire gt now t"
  shows "flagged stamp t \<in> set (snd (tick gt now stamp ts))"
proof -
  have "(\<lambda>x. if should_fire gt now x then flagged stamp x else x) t
          \<in> (\<lambda>x. if should_fire gt now x then flagged stamp x else x) ` set ts"
    using assms(2) by (rule imageI)
  with assms(1,3) show ?thesis by (simp add: tick_distinct_state)
qed

lemma tick_distinct:
  "distinct (map task_id ts) \<Longrightarrow> distinct (map task_id (snd (tick gt now stamp ts)))"
  by (simp add: tick_ids)

lemma run_ticks_quiet:
  assumes "distinct (map task_id ts)" "t \<in> set ts"
    and "\<forall>(n, st) \<in> set ticks. \<not> should_fire gt n t"
  shows "map (count_for (task_id t)) (fst (run_ticks gt ticks ts)) = replicate (length ticks) 0
         \<and> t \<in> set (snd (run_ticks gt ticks ts))
         \<and> distinct (map task_id (snd (run_ticks gt ticks ts)))"
  using assms
proof (induction ticks arbitrary: ts)
  case Nil
  then show ?case by simp
next
  case (Cons a ticks)
  obtain now stamp where a: "a = (now, stamp)" by (cases a)
  from Cons.prems(3) a have q: "\<not> should_fire gt now t" by simp
  let ?ts = "snd (tick gt now stamp ts)"
  have c: "count_for (task_id t) (fst (tick gt now stamp ts)) = 0"
    using Cons.prems(1,2) q by (simp add: count_for_tick)
  have m: "t \<in> set ?ts" using Cons.prems(1,2) q by (rule tick_keeps_quiet)
  have d: "distinct (map task_id ?ts)" using Cons.prems(1) by (rule tick_distinct)
  have r: "\<forall>(n, st) \<in> set ticks. \<not> should_fire gt n t" using Cons.prems(3) by simp
  from Cons.IH [OF d m r] c a show ?case
    by (simp add: split_beta)
qed

lemma run_ticks_append:
  "run_ticks gt (a @ b) ts =
     (fst (run_ticks gt a ts) @ fst (run_ticks gt b (snd (run_ticks gt a ts))),
      snd (run_ticks gt b (snd (run_ticks gt a ts))))"
  by (induction a arbitrary: ts) (auto simp: split_beta)

lemma run_ticks_once:
  assumes dist: "distinct (map task_id ts)" and mem: "t \<in> set ts"
    and pre: "\<forall>(n, st) \<in> set pre. \<not> should_fire gt n t"
    and fire: "should_fire gt now t"
  shows "map (count_for (task_id t)) (fst (run_ticks gt (pre @ (now, stamp) # post) ts))
           = replicate (length pre) 0 @ 1 # replicate (length post) 0"
proof -
  let ?t1 = "snd (run_ticks gt pre ts)"
  let ?t2 = "snd (tick gt now stamp ?t1)"
  from run_ticks_quiet [OF dist mem pre]
  have p1: "map (count_for (task_id t)) (fst (run_ticks gt pre ts)) = replicate (length pre) 0"
    and m1: "t \<in> set ?t1" and d1: "distinct (map task_id ?t1)" by simp_all
  have c: "count_for (task_id t) (fst (tick gt now stamp ?t1)) = 1"
    using d1 m1 fire by (simp add: count_for_tick)
  have m2: "flagged stamp t \<in> set ?t2" using d1 m1 fire by (rule tick_flags_fired)
  have d2: "distinct (map task_id ?t2)" using d1 by (rule tick_distinct)
  have q: "\<forall>(n, st) \<in> set post. \<not> should_fire gt n (flagged stamp t)"
    by (simp add: should_fire_flagged split_beta)
  from run_ticks_quiet [OF d2 m2 q]
  have p3: "map (count_for (task_id t)) (fst (run_ticks gt post ?t2)) = replicate (length post) 0"
    by simp
  show ?thesis
    using p1 c p3 by (simp add: run_ticks_append split_beta)
qed


lemma onFlag_is_updateTask:
  assumes "distinct (map task_id ts)" "t \<in> set ts"
  shows "onFlag stamp (task_id t) ts = updateTask (t\<lparr>reminderSent := Some True, updatedAt := stamp\<rparr>) ts"
proof -
  have "\<And>x. x \<in> set ts \<Longrightarrow> task_id x = task_id t \<Longrightarrow> x = t"
    using assms by (meson distinct_map inj_onD)
  then show ?thesis
    by (auto simp: onFlag_def updateTask_def)
qed

text \<open>
  C1. Let a task of the list have a well-formed deadline and a status other than Done,
  and let identifiers be unique in the list. A tick emits a reminder for the task exactly
  when now is at or past the deadline less the lead and the reminder-sent flag is not
  set; the reminder carries the title, the assignee, the deadline and the lead of the
  task, and the flag is then set by the update that \<open>updateTask\<close> makes with the
  flagged task. Over a run of ticks of which a first one is at or past the threshold, the
  ticks before it emit nothing for the task, that tick emits one reminder, and no later
  tick emits another; a task whose flag is set gets no reminder from any run.
\<close>

theorem reminder_fires_exactly_once:
  assumes "distinct (map task_id ts)" and "t \<in> set ts"
    and "sla t = Some s" and "s \<noteq> []" and "status t \<noteq> Done" and "getTime s = Num d"
    and "fireAt = d - nullish (reminderLeadMinutes t) 0 * 60000"
  shows "count_for (task_id t) (fst (tick getTime now stamp ts))
           = (if fireAt \<le> now \<and> \<not> truthy_bool (reminderSent t) then 1 else 0)
       \<and> (fireAt \<le> now \<and> \<not> truthy_bool (reminderSent t) \<longrightarrow>
            remind t \<in> set (fst (tick getTime now stamp ts))
            \<and> t\<lparr>reminderSent := Some True, updatedAt := stamp\<rparr> \<in> set (snd (tick getTime now stamp ts))
            \<and> onFlag stamp (task_id t) ts
                = updateTask (t\<lparr>reminderSent := Some True, updatedAt := stamp\<rparr>) ts)
       \<and> (\<not> truthy_bool (reminderSent t) \<and> (\<forall>(n, st) \<in> set pre. n < fireAt) \<and> fireAt \<le> now \<longrightarrow>
            map (count_for (task_id t)) (fst (run_ticks getTime (pre @ (now, stamp) # post) ts))
              = replicate (length pre) 0 @ 1 # replicate (length post) 0)
       \<and> (truthy_bool (reminderSent t) \<longrightarrow>
            map (count_for (task_id t)) (fst (run_ticks getTime ticks ts))
              = replicate (length ticks) 0)"
proof -
  have sf: "\<And>n. should_fire getTime n t \<longleftrightarrow> (fireAt \<le> n \<and> \<not> truthy_bool (reminderSent t))"
    using assms(3-7) by (simp add: should_fire_valid)
  have one: "count_for (task_id t) (fst (tick getTime now stamp ts))
           = (if fireAt \<le> now \<and> \<not> truthy_bool (reminderSent t) then 1 else 0)"
    using assms(1,2) sf by (simp add: count_for_tick)
  have two: "fireAt \<le> now \<and> \<not> truthy_bool (reminderSent t) \<longrightarrow>
            remind t \<in> set (fst (tick getTime now stamp ts))
            \<and> t\<lparr>reminderSent := Some True, updatedAt := stamp\<rparr> \<in> set (snd (tick getTime now stamp ts))
            \<and> onFlag stamp (task_id t) ts
                = updateTask (t\<lparr>reminderSent := Some True, updatedAt := stamp\<rparr>) ts"
  proof
    assume "fireAt \<le> now \<and> \<not> truthy_bool (reminderSent t)"
    then have f: "should_fire getTime now t" using sf by simp
    with assms(1,2) have "flagged stamp t \<in> set (snd (tick getTime now stamp ts))"
      by (rule tick_flags_fired)
    moreover have "remind t \<in> set (fst (tick getTime now stamp ts))"
      using assms(2) f by (simp add: tick_eq)
    ultimately show "remind t \<in> set (fst (tick getTime now stamp ts))
            \<and> t\<lparr>reminderSent := Some True, updatedAt := stamp\<rparr> \<in> set (snd (tick getTime now stamp ts))
            \<and> onFlag stamp (task_id t) ts
                = updateTask (t\<lparr>reminderSent := Some True, updatedAt := stamp\<rparr>) ts"
      using onFlag_is_updateTask [OF assms(1,2)] by (simp add: flagged_def)
  qed
  have three: "\<not> truthy_bool (reminderSent t) \<and> (\<forall>(n, st) \<in> set pre. n < fireAt) \<and> fireAt \<le> now \<longrightarrow>
            map (count_for (task_id t)) (fst (run_ticks getTime (pre @ (now, stamp) # post) ts))
              = replicate (length pre) 0 @ 1 # replicate (length post) 0"
  proof
    assume h: "\<not> truthy_bool (reminderSent t) \<and> (\<forall>(n, st) \<in> set pre. n < fireAt) \<and> fireAt \<le> now"
    then have q: "\<forall>(n, st) \<in> set pre. \<not> should_fire getTime n t"
      using sf by auto
    have f: "should_fire getTime now t" using h sf by simp
    show "map (count_for (task_id t)) (fst (run_ticks getTime (pre @ (now, stamp) # post) ts))
              = replicate (length pre) 0 @ 1 # replicate (length post) 0"
      using assms(1,2) q f by (rule run_ticks_once)
  qed
  have four: "truthy_bool (reminderSent t) \<longrightarrow>
            map (count_for (task_id t)) (fst (run_ticks getTime ticks ts))
              = replicate (length ticks) 0"
  proof
    assume "truthy_bool (reminderSent t)"
    then have q: "\<forall>(n, st) \<in> set ticks. \<not> should_fire getTime n t"
      using sf by simp
    from run_ticks_quiet [OF assms(1,2) q]
    show "map (count_for (task_id t)) (fst (run_ticks getTime ticks ts))
              = replicate (length ticks) 0" by simp
  qed
  from one two three four show ?thesis by (intro conjI)
qed

theorem reminder_fires_exactly_once_witness:
  "map (count_for ''k3x9'')
     (fst (run_ticks sample_getTime
        [(1735699800000, ''2025-01-01T02:50:00.000Z''),
         (1735700400000, ''2025-01-01T03:00:00.000Z''),
         (1735700430000, ''2025-01-01T03:00:30.000Z''),
         (1735704600000, ''2025-01-01T04:10:00.000Z'')]
        [sample_task])) = [0, 1, 0, 0]"
proof -
  have a: "distinct (map task_id [sample_task])" by simp
  have b: "sample_task \<in> set [sample_task]" by simp
  have c: "sla sample_task = Some ''2025-01-01T04:00:00.000Z''" by (simp add: sample_task_def)
  have d: "''2025-01-01T04:00:00.000Z'' \<noteq> []" by simp
  have e: "status sample_task \<noteq> Done" by (simp add: sample_task_def)
  have f: "sample_getTime ''2025-01-01T04:00:00.000Z'' = Num 1735704000000"
    by (simp add: sample_getTime_def)
  have g: "(1735700400000::int) = 1735704000000 - nullish (reminderLeadMinutes sample_task) 0 * 60000"
    by (simp add: sample_task_def)
  have h: "\<not> truthy_bool (reminderSent sample_task)
           \<and> (\<forall>(n, st) \<in> set [(1735699800000::int, ''2025-01-01T02:50:00.000Z'')]. n < 1735700400000)
           \<and> (1735700400000::int) \<le> 1735700400000"
    by (simp add: sample_task_def)
  have i: "task_id sample_task = ''k3x9''" by (simp add: sample_task_def)
  from reminder_fires_exactly_once [where ts = "[sample_task]" and t = sample_task
      and s = "''2025-01-01T04:00:00.000Z''" and getTime = sample_getTime
      and d = 1735704000000 and fireAt = 1735700400000
      and now = 1735700400000 and stamp = "''2025-01-01T03:00:00.000Z''"
      and pre = "[(1735699800000, ''2025-01-01T02:50:00.000Z'')]"
      and post = "[(1735700430000, ''2025-01-01T03:00:30.000Z''),
                   (1735704600000, ''2025-01-01T04:10:00.000Z'')]",
      OF a b c d e f g]
    h i
  show ?thesis by simp
qed

section \<open>Properties of the write-through cache\<close>

lemma send_frame [simp]:
  "tasks (send op s) = tasks s" "settings (send op s) = settings s"
  "tasksLocal (send op s) = tasksLocal s" "settingsLocal (send op s) = settingsLocal s"
  "ls_tasks (send op s) = ls_tasks s" "ls_settings (send op s) = ls_settings s"
  by (simp_all add: send_def)

lemma update_frame:
  "tasksLocal (update a s) = tasksLocal s \<and> ls_tasks (update a s) = ls_tasks s"
  by (cases a) (simp_all add: Let_def split: option.splits)

lemma run_effects_cache:
  assumes "ls_tasks old = Some (tasks old)" and "tasksLocal old = tasks old"
    and "tasksLocal new = tasksLocal old" and "ls_tasks new = ls_tasks old"
  shows "cache_mirrors_tasks (run_effects old new)"
  using assms by (simp add: run_effects_def cache_mirrors_tasks_def Let_def)

lemma step_cache: "cache_mirrors_tasks s \<Longrightarrow> cache_mirrors_tasks (step a s)"
  unfolding step_def
  by (rule run_effects_cache) (simp_all add: cache_mirrors_tasks_def update_frame)

lemma mount_cache: "cache_mirrors_tasks (mount c cs seeds)"
  by (simp add: mount_def cache_mirrors_tasks_def Let_def)

lemma useSupabase_cache: "cache_mirrors_tasks s \<Longrightarrow> cache_mirrors_tasks (useSupabase creds h s)"
  by (simp add: useSupabase_def cache_mirrors_tasks_def split: awaited.splits)

lemma load_cloud_cache: "cache_mirrors_tasks s \<Longrightarrow> cache_mirrors_tasks (load_cloud stamp f k s)"
  by (simp add: load_cloud_def step_cache split: awaited.splits option.splits)

lemma startup_cache: "cache_mirrors_tasks (startup c cs seeds creds h stamp f k)"
  unfolding startup_def
  by (intro load_cloud_cache useSupabase_cache mount_cache)

lemma steps_cache: "cache_mirrors_tasks s \<Longrightarrow> cache_mirrors_tasks (foldl (\<lambda>s a. step a s) s acts)"
  by (induction acts arbitrary: s) (simp_all add: step_cache)

lemma import_hash_cache:
  "cache_mirrors_tasks s \<Longrightarrow> cache_mirrors_tasks (fst (import_hash P answer hash s))"
  by (simp add: import_hash_def step_cache split: option.splits decoded.splits)

text \<open>
  C7. Write-through. The cache holds the canonical list after the start of a session,
  whatever the credentials, the handshake and the fetch come to, and every transition
  keeps it so: adding, updating and deleting a task, a live event, a reminder flag, a
  reset, a cloud load and the import of a share link, with or without a connection. So
  it holds after every sequence of transitions of a session.
\<close>

theorem write_through:
  "cache_mirrors_tasks (startup c cs seeds creds h stamp f k)
   \<and> (cache_mirrors_tasks s \<longrightarrow> cache_mirrors_tasks (step a s))
   \<and> (cache_mirrors_tasks s \<longrightarrow> cache_mirrors_tasks (fst (import_hash P answer hash s)))
   \<and> (ls_tasks s = Some (tasks s) \<and> tasksLocal s = tasks s \<longrightarrow>
        ls_tasks (step a s) = Some (tasks (step a s)))
   \<and> ls_tasks (foldl (\<lambda>s a. step a s) (startup c cs seeds creds h stamp f k) acts)
        = Some (tasks (foldl (\<lambda>s a. step a s) (startup c cs seeds creds h stamp f k) acts))"
proof -
  have a: "cache_mirrors_tasks (startup c cs seeds creds h stamp f k)"
    by (rule startup_cache)
  have b: "cache_mirrors_tasks s \<longrightarrow> cache_mirrors_tasks (step a s)"
    by (simp add: step_cache)
  have i: "cache_mirrors_tasks s \<longrightarrow> cache_mirrors_tasks (fst (import_hash P answer hash s))"
    by (simp add: import_hash_cache)
  have c: "ls_tasks s = Some (tasks s) \<and> tasksLocal s = tasks s \<longrightarrow>
        ls_tasks (step a s) = Some (tasks (step a s))"
    using step_cache [of s a] by (simp add: cache_mirrors_tasks_def)
  have "cache_mirrors_tasks (foldl (\<lambda>s a. step a s) (startup c cs seeds creds h stamp f k) acts)"
    using a by (rule steps_cache)
  then have d: "ls_tasks (foldl (\<lambda>s a. step a s) (startup c cs seeds creds h stamp f k) acts)
        = Some (tasks (foldl (\<lambda>s a. step a s) (startup c cs seeds creds h stamp f k) acts))"
    by (simp add: cache_mirrors_tasks_def)
  from a b i c d show ?thesis by (intro conjI)
qed

theorem write_through_witness:
  "cache_mirrors_tasks (mount (Some [sample_task]) None [])
   \<and> cache_mirrors_tasks (step (Flag ''2025-01-01T03:00:00.000Z'' ''k3x9'') (mount (Some [sample_task]) None []))
   \<and> ls_tasks (step (Flag ''2025-01-01T03:00:00.000Z'' ''k3x9'') (mount (Some [sample_task]) None []))
       = Some [sample_task\<lparr>reminderSent := Some True, updatedAt := ''2025-01-01T03:00:00.000Z''\<rparr>]"
proof -
  let ?s = "mount (Some [sample_task]) None []"
  have m: "cache_mirrors_tasks ?s" by (rule mount_cache)
  have t: "tasks (step (Flag ''2025-01-01T03:00:00.000Z'' ''k3x9'') ?s)
             = [sample_task\<lparr>reminderSent := Some True, updatedAt := ''2025-01-01T03:00:00.000Z''\<rparr>]"
    by (simp add: step_def run_effects_def mount_def onFlag_def sample_task_def send_def Let_def)
  from write_through [where c = "Some [sample_task]" and cs = None and seeds = "[]"
      and creds = False and h = "Rejected []" and stamp = "[]" and f = "Rejected []" and k = None
      and s = ?s and a = "Flag ''2025-01-01T03:00:00.000Z'' ''k3x9''" and acts = "[]"
      and P = sample_platform and answer = False and hash = "[]"] m t
  show ?thesis by (simp add: cache_mirrors_tasks_def)
qed

section \<open>Properties of the connection\<close>

lemma handshake_rejected:
  "startup c cs seeds True (Rejected msg) stamp f k
     = (mount c cs seeds)\<lparr>client := True, error := Some msg, connected := False\<rparr>"
  by (simp add: startup_def useSupabase_def load_cloud_def)

text \<open>
  C6. A handshake that fails as the remote client reports failure, by a response whose
  error field is set, is taken for a success: the session is connected, no error is
  recorded, and the fetched list replaces the list of the cache. Here the cache holds
  one task, the upsert is answered with an error and the fetch with one row.
\<close>

theorem handshake_error_response_connects:
  "connected (startup (Some [sample_task]) None [] True
               (Resolved (Some ''permission denied for table trips'') ())
               ''2025-01-01T00:00:00.000Z'' (Resolved None [sample_row]) None) = True
   \<and> error (startup (Some [sample_task]) None [] True
               (Resolved (Some ''permission denied for table trips'') ())
               ''2025-01-01T00:00:00.000Z'' (Resolved None [sample_row]) None) = None
   \<and> tasks (startup (Some [sample_task]) None [] True
               (Resolved (Some ''permission denied for table trips'') ())
               ''2025-01-01T00:00:00.000Z'' (Resolved None [sample_row]) None)
       = [dbToTask ''2025-01-01T00:00:00.000Z'' sample_row]
   \<and> dbToTask ''2025-01-01T00:00:00.000Z'' sample_row \<noteq> sample_task"
  by (simp add: startup_def useSupabase_def load_cloud_def mount_def step_def run_effects_def
      Let_def dbToTask_def sample_row_def sample_task_def)

section \<open>The classifier never throws\<close>

lemma status_name_Done: "status_name st = ''Done'' \<longleftrightarrow> st = Done"
  by (cases st) simp_all

lemma dueState_js_null: "dueState_js getTime dateOf now JNull = Inl TypeError"
  by (simp add: dueState_js_def)

lemma dueState_js_object_deadline:
  "dueState_js getTime (\<lambda>v. Inl TypeError) now (JObject [(''sla'', JObject [])]) = Inl TypeError"
  by (simp add: dueState_js_def)

lemma dueState_js_text:
  assumes "sla_is_text fs"
  shows "\<exists>r. dueState_js getTime dateOf now (JObject fs) = Inr r"
proof (cases "map_of fs ''sla''")
  case None
  then show ?thesis by (simp add: dueState_js_def)
next
  case (Some v)
  with assms have "v = JUndefined \<or> (\<exists>s. v = JString s)"
    by (cases v) (simp_all add: sla_is_text_def)
  with Some show ?thesis
    by (auto simp: dueState_js_def Let_def)
qed

text \<open>
  C9. Evaluating the classifier on a task never throws, and its value is a function of
  the clock reading and the task alone. The evaluation is followed through the
  operations of the host that can throw: a property read throws on \<^verbatim>\<open>null\<close>, the date
  constructor can throw on an object. On the object of any task, with the deadline
  absent, empty, malformed or well-formed, it returns normally with the value of
  \<open>dueState\<close> at this clock reading; and it returns normally on every object whose
  \<^verbatim>\<open>sla\<close> is absent or a string, whatever its other properties are.
\<close>

theorem dueState_never_throws:
  "dueState_js getTime dateOf now (task_obj t) = Inr (dueState getTime now t)
   \<and> (sla_is_text fs \<longrightarrow> (\<exists>r. dueState_js getTime dateOf now (JObject fs) = Inr r))"
proof -
  have a: "dueState_js getTime dateOf now (task_obj t) = Inr (dueState getTime now t)"
  proof (cases "sla t")
    case None
    then show ?thesis by (simp add: dueState_js_def dueState_def task_obj_def)
  next
    case (Some s)
    then show ?thesis
      by (simp add: dueState_js_def dueState_def task_obj_def Let_def status_name_Done)
  qed
  have b: "sla_is_text fs \<longrightarrow> (\<exists>r. dueState_js getTime dateOf now (JObject fs) = Inr r)"
    by (simp add: dueState_js_text)
  from a b show ?thesis by simp
qed

theorem dueState_never_throws_witness:
  "dueState_js sample_getTime (\<lambda>v. Inl TypeError) 1735704000000
       (JObject [(''sla'', JString ''next tuesday''), (''status'', JNumber (Num 5))])
     = Inr \<lparr>overdue = False, dueSoon = False, soonMins = NaN\<rparr>
   \<and> dueState_js sample_getTime (\<lambda>v. Inl TypeError) 1735704000001 (task_obj sample_task)
     = Inr \<lparr>overdue = True, dueSoon = False, soonMins = Num 0\<rparr>"
proof -
  have h: "sla_is_text [(''sla'', JString ''next tuesday''), (''status'', JNumber (Num 5))]"
    by (simp add: sla_is_text_def)
  have v: "dueState_js sample_getTime (\<lambda>v. Inl TypeError) 1735704000000
       (JObject [(''sla'', JString ''next tuesday''), (''status'', JNumber (Num 5))])
     = Inr \<lparr>overdue = False, dueSoon = False, soonMins = NaN\<rparr>"
    by (simp add: dueState_js_def sample_getTime_def Let_def)
  have d: "dueState sample_getTime 1735704000001 sample_task
             = \<lparr>overdue = True, dueSoon = False, soonMins = Num 0\<rparr>"
    by (simp add: dueState_def sample_getTime_def sample_task_def Let_def)
  from dueState_never_throws [of sample_getTime "\<lambda>v. Inl TypeError" 1735704000001 sample_task
      "[(''sla'', JString ''next tuesday''), (''status'', JNumber (Num 5))]"] h v d
  show ?thesis by simp
qed

section \<open>Properties of the share-state codec\<close>









end
